theory Spec2Isabelle
  imports Main
begin

section \<open>The host runtime the service worker runs in\<close>

text \<open>
  \<^verbatim>\<open>sw.js\<close> registers two event listeners and calls four operations of the host:
  \<^verbatim>\<open>caches.open\<close>, \<^verbatim>\<open>cache.addAll\<close>, \<^verbatim>\<open>caches.match\<close> and \<^verbatim>\<open>fetch\<close>. The host is the
  environment of the script: its stores and its network are a state that the operations
  read and write, and what the network answers and whether the storage fails are
  parameters of every run.

  A request is its method and its URL, a response is its status, headers and body: the
  data model of the specification. Matching ignores the fragment of a URL;
  header-dependent matching (\<^verbatim>\<open>Vary\<close>) is outside this model.
\<close>

record request =
  http_method :: string
  url :: string

record response =
  status :: nat
  headers :: "(string \<times> string) list"
  body :: string

datatype error = TypeError | InvalidStateError | QuotaExceededError | UnknownError

text \<open>
  A cache bucket keeps its entries in insertion order; the cache storage keeps its
  buckets, by name, in creation order.
\<close>

type_synonym cache = "(request \<times> response) list"

type_synonym cache_storage = "(string \<times> cache) list"

text \<open>
  The state of a run: the cache storage of the origin, and the requests that went out to
  the network, in order.
\<close>

record sw_state =
  storage :: cache_storage
  net_log :: "request list"

text \<open>
  What the script does not control: the answer of the network to each request (a
  response of any status, or a failure), which responses the batch operation accepts
  (the host's policy), which requests of a batch have left when the batch is aborted
  (the requests of a batch run concurrently, so this is a matter of timing), and whether
  opening, reading or writing the storage fails.
\<close>

record host =
  network :: "request \<Rightarrow> error + response"
  acceptable :: "response \<Rightarrow> bool"
  dispatched :: "request \<Rightarrow> bool"
  open_fault :: "error option"
  read_fault :: "error option"
  write_fault :: "error option"

subsection \<open>Promises\<close>

text \<open>
  The handlers are single chains of promises with no concurrency of their own, so a
  promise is a computation on the state that settles as rejected (\<open>Inl\<close>) or resolved
  (\<open>Inr\<close>). \<^verbatim>\<open>p.then(f)\<close> runs \<open>f\<close> on the value of a resolved \<open>p\<close> and adopts the
  promise \<open>f\<close> returns; a rejected \<open>p\<close> skips \<open>f\<close> and stays rejected.
\<close>

type_synonym 'a promise = "sw_state \<Rightarrow> (error + 'a) \<times> sw_state"

definition resolve :: "'a \<Rightarrow> 'a promise" where
  "resolve v s = (Inr v, s)"

definition promise_then :: "'a promise \<Rightarrow> ('a \<Rightarrow> 'b promise) \<Rightarrow> 'b promise" where
  "promise_then p f s =
     (case p s of
        (Inl e, s') \<Rightarrow> (Inl e, s')
      | (Inr v, s') \<Rightarrow> f v s')"

subsection \<open>Fetch\<close>

text \<open>
  \<^verbatim>\<open>fetch(request)\<close> sends the request to the network and settles as the network
  answers: a response of any status resolves it, a network failure rejects it.
\<close>

definition fetch :: "host \<Rightarrow> request \<Rightarrow> response promise" where
  "fetch h req s = (network h req, s\<lparr>net_log := net_log s @ [req]\<rparr>)"

subsection \<open>Cache storage\<close>

text \<open>A string handed to the cache becomes a \<^verbatim>\<open>GET\<close> request for that string.\<close>

definition new_request :: "string \<Rightarrow> request" where
  "new_request u = \<lparr>http_method = ''GET'', url = u\<rparr>"

text \<open>
  A query matches a stored key when the query is a \<^verbatim>\<open>GET\<close> and the URLs, without
  their fragments, are equal character by character.
\<close>

definition strip_fragment :: "string \<Rightarrow> string" where
  "strip_fragment u = takeWhile (\<lambda>c. c \<noteq> CHR ''#'') u"

definition request_matches :: "request \<Rightarrow> request \<Rightarrow> bool" where
  "request_matches req k =
     (http_method req = ''GET'' \<and> strip_fragment (url k) = strip_fragment (url req))"

definition cache_match :: "cache \<Rightarrow> request \<Rightarrow> response option" where
  "cache_match c req = map_option snd (find (\<lambda>kv. request_matches req (fst kv)) c)"

text \<open>
  \<^verbatim>\<open>caches.match(request)\<close> names no bucket: it asks every bucket of the storage, in
  creation order, and resolves with the first match, or with \<^verbatim>\<open>undefined\<close> (\<open>None\<close>).
  It writes nothing.
\<close>

fun storage_match :: "cache_storage \<Rightarrow> request \<Rightarrow> response option" where
  "storage_match [] req = None"
| "storage_match (b # bs) req =
     (case cache_match (snd b) req of
        Some r \<Rightarrow> Some r
      | None \<Rightarrow> storage_match bs req)"

definition caches_match :: "host \<Rightarrow> request \<Rightarrow> (response option) promise" where
  "caches_match h req s =
     (case read_fault h of
        Some e \<Rightarrow> (Inl e, s)
      | None \<Rightarrow> (Inr (storage_match (storage s) req), s))"

text \<open>
  \<^verbatim>\<open>caches.open(name)\<close> resolves with the bucket of that name, created empty when the
  storage has none. The bucket object is a reference into the storage: its name.
\<close>

definition caches_open :: "host \<Rightarrow> string \<Rightarrow> string promise" where
  "caches_open h name s =
     (case open_fault h of
        Some e \<Rightarrow> (Inl e, s)
      | None \<Rightarrow>
          (Inr name,
           if map_of (storage s) name = None
           then s\<lparr>storage := storage s @ [(name, [])]\<rparr>
           else s))"

text \<open>Storing an entry replaces the entries its key matches.\<close>

definition cache_put :: "cache \<Rightarrow> request \<times> response \<Rightarrow> cache" where
  "cache_put c kv = filter (\<lambda>old. \<not> request_matches (fst kv) (fst old)) c @ [kv]"

definition update_bucket :: "string \<Rightarrow> (cache \<Rightarrow> cache) \<Rightarrow> cache_storage \<Rightarrow> cache_storage" where
  "update_bucket name f st = map (\<lambda>b. if fst b = name then (fst b, f (snd b)) else b) st"

definition refused :: "host \<Rightarrow> error + response \<Rightarrow> bool" where
  "refused h a = (case a of Inl e \<Rightarrow> True | Inr r \<Rightarrow> \<not> acceptable h r)"

definition answered :: "error + response \<Rightarrow> response list" where
  "answered a = (case a of Inl e \<Rightarrow> [] | Inr r \<Rightarrow> [r])"

text \<open>
  \<^verbatim>\<open>cache.addAll(urls)\<close> is one batch of concurrent requests, one for every string
  of the list. When a request fails or its response is not acceptable the batch is
  aborted and rejected, storing nothing: of its requests, those have gone to the network
  that had left by then. When every response has arrived and is acceptable, every
  request has gone out; the batch is still rejected, storing nothing, when two strings
  of the list name the same entry or when the write fails. Otherwise it stores every
  response under its request.
\<close>

definition cache_addAll :: "host \<Rightarrow> string \<Rightarrow> string list \<Rightarrow> unit promise" where
  "cache_addAll h name urls s =
     (let reqs = map new_request urls;
          answers = map (network h) reqs;
          s1 = s\<lparr>net_log := net_log s @ reqs\<rparr>
      in if list_ex (refused h) answers
         then (Inl TypeError, s\<lparr>net_log := net_log s @ filter (dispatched h) reqs\<rparr>)
         else if \<not> distinct (map strip_fragment urls) then (Inl InvalidStateError, s1)
         else (case write_fault h of
                 Some e \<Rightarrow> (Inl e, s1)
               | None \<Rightarrow>
                   (Inr (),
                    s1\<lparr>storage :=
                      update_bucket name
                        (\<lambda>c. foldl cache_put c (zip reqs (concat (map answered answers))))
                        (storage s1)\<rparr>)))"

subsection \<open>Events\<close>

text \<open>
  \<^verbatim>\<open>event.waitUntil(p)\<close> makes the outcome of the install that of \<open>p\<close>;
  \<^verbatim>\<open>event.respondWith(p)\<close> serves the response \<open>p\<close> resolves with, and the request
  fails when \<open>p\<close> is rejected.
\<close>

datatype install_outcome = Installed | InstallFailed error

datatype fetch_outcome = Served response | Unserved error

definition waitUntil :: "unit promise \<Rightarrow> sw_state \<Rightarrow> install_outcome \<times> sw_state" where
  "waitUntil p s =
     (case p s of
        (Inl e, s') \<Rightarrow> (InstallFailed e, s')
      | (Inr u, s') \<Rightarrow> (Installed, s'))"

definition respondWith :: "response promise \<Rightarrow> sw_state \<Rightarrow> fetch_outcome \<times> sw_state" where
  "respondWith p s =
     (case p s of
        (Inl e, s') \<Rightarrow> (Unserved e, s')
      | (Inr r, s') \<Rightarrow> (Served r, s'))"

section \<open>The service worker\<close>

definition CACHE_NAME :: string where
  "CACHE_NAME = ''agrimarket-v1''"

definition urlsToCache :: "string list" where
  "urlsToCache = [''/'', ''/static/css/*'', ''/static/media/*'', ''/images/*'']"

text \<open>
  \<^verbatim>\<open>event.waitUntil(caches.open(CACHE_NAME).then(cache => cache.addAll(urlsToCache)))\<close>
\<close>

definition install_handler :: "host \<Rightarrow> sw_state \<Rightarrow> install_outcome \<times> sw_state" where
  "install_handler h =
     waitUntil
       (promise_then (caches_open h CACHE_NAME)
          (\<lambda>cache. cache_addAll h cache urlsToCache))"

text \<open>
  \<^verbatim>\<open>event.respondWith(caches.match(event.request).then(response => response || fetch(event.request)))\<close>

  A response object is truthy whatever its status, and \<^verbatim>\<open>undefined\<close> is falsy: the
  right operand of \<^verbatim>\<open>||\<close> is evaluated, and the network asked, only for \<^verbatim>\<open>undefined\<close>.
\<close>

definition fetch_handler :: "host \<Rightarrow> request \<Rightarrow> sw_state \<Rightarrow> fetch_outcome \<times> sw_state" where
  "fetch_handler h req =
     respondWith
       (promise_then (caches_match h req)
          (\<lambda>response. case response of
             Some r \<Rightarrow> resolve r
           | None \<Rightarrow> fetch h req))"


section \<open>Notions the properties are stated with\<close>

text \<open>The entries of the bucket of a name; a storage without that bucket has none.\<close>

definition bucket_entries :: "string \<Rightarrow> cache_storage \<Rightarrow> cache" where
  "bucket_entries name st = (case map_of st name of None \<Rightarrow> [] | Some c \<Rightarrow> c)"

text \<open>What the bucket named by \<open>CACHE_NAME\<close>, asked alone, answers to a request.\<close>

definition named_cache_lookup :: "cache_storage \<Rightarrow> request \<Rightarrow> response option" where
  "named_cache_lookup st req = cache_match (bucket_entries CACHE_NAME st) req"

text \<open>
  The fetch interceptor as the specification words it: the lookup asks the named cache.
  It differs from \<open>fetch_handler\<close> in the lookup only.
\<close>

definition named_cache_match :: "host \<Rightarrow> request \<Rightarrow> (response option) promise" where
  "named_cache_match h req s =
     (case read_fault h of
        Some e \<Rightarrow> (Inl e, s)
      | None \<Rightarrow> (Inr (named_cache_lookup (storage s) req), s))"

definition spec_fetch_handler :: "host \<Rightarrow> request \<Rightarrow> sw_state \<Rightarrow> fetch_outcome \<times> sw_state" where
  "spec_fetch_handler h req =
     respondWith
       (promise_then (named_cache_match h req)
          (\<lambda>response. case response of
             Some r \<Rightarrow> resolve r
           | None \<Rightarrow> fetch h req))"

text \<open>The host dispatching the fetch event \<open>n\<close> times for the same request.\<close>

fun repeat_fetch :: "host \<Rightarrow> request \<Rightarrow> nat \<Rightarrow> sw_state \<Rightarrow> fetch_outcome list \<times> sw_state" where
  "repeat_fetch h req 0 s = ([], s)"
| "repeat_fetch h req (Suc n) s =
     (case fetch_handler h req s of
        (out, s') \<Rightarrow> (case repeat_fetch h req n s' of (outs, s'') \<Rightarrow> (out # outs, s'')))"

text \<open>The state once \<^verbatim>\<open>caches.open(CACHE_NAME)\<close> has resolved.\<close>

definition opened :: "sw_state \<Rightarrow> sw_state" where
  "opened s =
     (if map_of (storage s) CACHE_NAME = None
      then s\<lparr>storage := storage s @ [(CACHE_NAME, [])]\<rparr>
      else s)"

subsection \<open>Hosts and states of the examples\<close>

definition page :: "string \<Rightarrow> response" where
  "page b = \<lparr>status = 200, headers = [(''content-type'', ''text/html'')], body = b\<rparr>"

definition not_found :: response where
  "not_found = \<lparr>status = 404, headers = [], body = ''Not Found''\<rparr>"

definition server_error :: response where
  "server_error = \<lparr>status = 500, headers = [], body = ''Internal Server Error''\<rparr>"

text \<open>
  The policy of the example hosts: a status from 200 to 299 other than 206, and no
  \<^verbatim>\<open>Vary: *\<close> header.
\<close>

definition batch_accepts :: "response \<Rightarrow> bool" where
  "batch_accepts r =
     (200 \<le> status r \<and> status r \<le> 299 \<and> status r \<noteq> 206
      \<and> \<not> list_ex (\<lambda>hv. fst hv = ''vary'' \<and> snd hv = ''*'') (headers r))"

text \<open>A server that has a page for every path, the paths with an asterisk included.\<close>

definition serves_everything :: host where
  "serves_everything =
     \<lparr>network = (\<lambda>q. Inr (page (url q))), acceptable = batch_accepts,
      dispatched = (\<lambda>q. True),
      open_fault = None, read_fault = None, write_fault = None\<rparr>"

text \<open>
  The typical deployment: the root resolves, no file is named with an asterisk. In the
  run of this example the last request of an aborted batch has not left.
\<close>

definition serves_root_only :: host where
  "serves_root_only =
     \<lparr>network = (\<lambda>q. if url q = ''/'' then Inr (page ''home'') else Inr not_found),
      acceptable = batch_accepts,
      dispatched = (\<lambda>q. url q \<noteq> ''/images/*''),
      open_fault = None, read_fault = None, write_fault = None\<rparr>"

definition offline :: host where
  "offline =
     \<lparr>network = (\<lambda>q. Inl TypeError), acceptable = batch_accepts,
      dispatched = (\<lambda>q. url q = ''/''),
      open_fault = None, read_fault = None, write_fault = None\<rparr>"

definition broken_storage :: host where
  "broken_storage =
     \<lparr>network = (\<lambda>q. Inr (page (url q))), acceptable = batch_accepts,
      dispatched = (\<lambda>q. True),
      open_fault = Some UnknownError, read_fault = Some UnknownError, write_fault = None\<rparr>"

definition fresh_state :: sw_state where
  "fresh_state = \<lparr>storage = [], net_log = []\<rparr>"

text \<open>The state \<open>serves_everything\<close> leaves after an install on \<open>fresh_state\<close>.\<close>

definition installed_state :: sw_state where
  "installed_state =
     \<lparr>storage =
        [(''agrimarket-v1'',
          [(new_request ''/'', page ''/''),
           (new_request ''/static/css/*'', page ''/static/css/*''),
           (new_request ''/static/media/*'', page ''/static/media/*''),
           (new_request ''/images/*'', page ''/images/*'')])],
      net_log =
        [new_request ''/'', new_request ''/static/css/*'',
         new_request ''/static/media/*'', new_request ''/images/*'']\<rparr>"

text \<open>
  A storage that an earlier version of the script left a bucket in: the script deletes no
  bucket, so a bucket of another name stays beside the named one.
\<close>

definition leftover_state :: sw_state where
  "leftover_state =
     \<lparr>storage =
        [(''agrimarket-v0'', [(new_request ''/app.js'', page ''old build'')]),
         (''agrimarket-v1'', [])],
      net_log = []\<rparr>"

text \<open>A storage in which another script of the origin has put an error response.\<close>

definition error_cached_state :: sw_state where
  "error_cached_state =
     \<lparr>storage = [(''api'', [(new_request ''/api/prices'', server_error)])], net_log = []\<rparr>"

section \<open>The fetch interceptor, case by case\<close>

lemma fetch_handler_fault:
  "read_fault h = Some e \<Longrightarrow> fetch_handler h req s = (Unserved e, s)"
  by (simp add: fetch_handler_def respondWith_def promise_then_def caches_match_def)

lemma fetch_handler_hit:
  "read_fault h = None \<Longrightarrow> storage_match (storage s) req = Some r \<Longrightarrow>
   fetch_handler h req s = (Served r, s)"
  by (simp add: fetch_handler_def respondWith_def promise_then_def caches_match_def resolve_def)

lemma fetch_handler_miss:
  "read_fault h = None \<Longrightarrow> storage_match (storage s) req = None \<Longrightarrow>
   fetch_handler h req s = respondWith (fetch h req) s"
  by (simp add: fetch_handler_def respondWith_def promise_then_def caches_match_def)

lemma respondWith_fetch:
  "respondWith (fetch h req) s =
     (case network h req of Inl e \<Rightarrow> Unserved e | Inr r \<Rightarrow> Served r,
      s\<lparr>net_log := net_log s @ [req]\<rparr>)"
  by (simp add: respondWith_def fetch_def split: sum.splits)

lemma fetch_handler_cases:
  obtains (fault) e where "read_fault h = Some e" "fetch_handler h req s = (Unserved e, s)"
  | (hit) r where "read_fault h = None" "storage_match (storage s) req = Some r"
      "fetch_handler h req s = (Served r, s)"
  | (miss) "read_fault h = None" "storage_match (storage s) req = None"
      "fetch_handler h req s = respondWith (fetch h req) s"
proof (cases "read_fault h")
  case None
  show ?thesis
  proof (cases "storage_match (storage s) req")
    case N: None
    from miss [OF None N fetch_handler_miss [OF None N]] show ?thesis .
  next
    case (Some r)
    from hit [OF None Some fetch_handler_hit [OF None Some]] show ?thesis .
  qed
next
  case (Some e)
  from fault [OF Some fetch_handler_fault [OF Some]] show ?thesis .
qed

lemma storage_match_no_bucket_matches:
  "list_all (\<lambda>b. cache_match (snd b) req = None) st \<Longrightarrow> storage_match st req = None"
  by (induction st) auto

lemma storage_match_only_named:
  assumes "distinct (map fst st)"
    and "\<forall>b \<in> set st. fst b \<noteq> CACHE_NAME \<longrightarrow> cache_match (snd b) req = None"
  shows "storage_match st req = named_cache_lookup st req"
  using assms
proof (induction st)
  case Nil
  show ?case by (simp add: named_cache_lookup_def bucket_entries_def cache_match_def)
next
  case (Cons b st)
  show ?case
  proof (cases "fst b = CACHE_NAME")
    case True
    with Cons.prems have "list_all (\<lambda>b. cache_match (snd b) req = None) st"
      by (force simp: list_all_iff)
    then have "storage_match st req = None"
      by (rule storage_match_no_bucket_matches)
    with True show ?thesis
      by (cases b) (simp add: named_cache_lookup_def bucket_entries_def split: option.splits)
  next
    case False
    with Cons.prems have "cache_match (snd b) req = None" by simp
    moreover have "storage_match st req = named_cache_lookup st req"
      using Cons.IH Cons.prems by simp
    ultimately show ?thesis
      using False by (cases b) (simp add: named_cache_lookup_def bucket_entries_def)
  qed
qed

lemma spec_fetch_handler_eq:
  assumes "storage_match (storage s) req = named_cache_lookup (storage s) req"
  shows "fetch_handler h req s = spec_fetch_handler h req s"
  using assms
  by (cases "read_fault h")
    (simp_all add: fetch_handler_def spec_fetch_handler_def caches_match_def
      named_cache_match_def respondWith_def promise_then_def)


lemmas example_defs =
  serves_everything_def serves_root_only_def offline_def broken_storage_def fresh_state_def
  installed_state_def leftover_state_def error_cached_state_def page_def not_found_def
  server_error_def batch_accepts_def new_request_def

lemmas handler_defs =
  fetch_handler_def spec_fetch_handler_def respondWith_def promise_then_def caches_match_def
  named_cache_match_def named_cache_lookup_def bucket_entries_def cache_match_def
  request_matches_def strip_fragment_def resolve_def fetch_def CACHE_NAME_def

section \<open>Properties of the fetch interceptor\<close>

text \<open>
  C1, as the specification states it, has the interceptor look up the named cache. It
  fails on the code: \<^verbatim>\<open>caches.match\<close> names no bucket. With a bucket of an earlier
  version beside the named one, a request that only the old bucket matches is served
  from the old bucket with no network fetch, where a lookup of the named cache finds
  nothing and the request would go to the network.
\<close>

theorem fetch_handler_named_cache_counterexample:
  "fetch_handler serves_everything (new_request ''/app.js'') leftover_state
     \<noteq> spec_fetch_handler serves_everything (new_request ''/app.js'') leftover_state
   \<and> named_cache_lookup (storage leftover_state) (new_request ''/app.js'') = None
   \<and> spec_fetch_handler serves_everything (new_request ''/app.js'') leftover_state
       = (Served (page ''/app.js''), leftover_state\<lparr>net_log := [new_request ''/app.js'']\<rparr>)
   \<and> fetch_handler serves_everything (new_request ''/app.js'') leftover_state
       = (Served (page ''old build''), leftover_state)"
  by (simp add: example_defs handler_defs)

text \<open>
  C1, amended: for every intercepted request whose lookup does not fail, the interceptor
  resolves by looking up the whole cache storage of the origin, every bucket in creation
  order and not the named one alone. If a cached response is found it resolves with the
  first one found, and nothing goes to the network; if none is found it performs a single
  network fetch for the request and resolves with whatever that fetch returns. Where the
  bucket names are distinct and no bucket but the named one matches the request, this is
  the lookup of the named cache.
\<close>

theorem fetch_handler_looks_up_whole_storage:
  assumes "read_fault h = None"
  shows "(\<forall>r. storage_match (storage s) req = Some r \<longrightarrow> fetch_handler h req s = (Served r, s))
       \<and> (storage_match (storage s) req = None \<longrightarrow>
            fetch_handler h req s = respondWith (fetch h req) s
          \<and> net_log (snd (fetch_handler h req s)) = net_log s @ [req])
       \<and> (distinct (map fst (storage s))
          \<and> (\<forall>b \<in> set (storage s). fst b \<noteq> CACHE_NAME \<longrightarrow> cache_match (snd b) req = None) \<longrightarrow>
            fetch_handler h req s = spec_fetch_handler h req s)"
proof (intro conjI allI impI)
  fix r
  assume "storage_match (storage s) req = Some r"
  with assms show "fetch_handler h req s = (Served r, s)"
    by (rule fetch_handler_hit)
next
  assume m: "storage_match (storage s) req = None"
  from assms m show "fetch_handler h req s = respondWith (fetch h req) s"
    by (rule fetch_handler_miss)
  then show "net_log (snd (fetch_handler h req s)) = net_log s @ [req]"
    by (simp add: respondWith_fetch)
next
  assume "distinct (map fst (storage s))
    \<and> (\<forall>b \<in> set (storage s). fst b \<noteq> CACHE_NAME \<longrightarrow> cache_match (snd b) req = None)"
  then have "storage_match (storage s) req = named_cache_lookup (storage s) req"
    by (simp add: storage_match_only_named)
  then show "fetch_handler h req s = spec_fetch_handler h req s"
    by (rule spec_fetch_handler_eq)
qed

theorem fetch_handler_looks_up_whole_storage_witness:
  "read_fault offline = None
   \<and> storage_match (storage installed_state) (new_request ''/'') = Some (page ''/'')
   \<and> fetch_handler offline (new_request ''/'') installed_state = (Served (page ''/''), installed_state)
   \<and> distinct (map fst (storage installed_state))
   \<and> fetch_handler offline (new_request ''/'') installed_state
       = spec_fetch_handler offline (new_request ''/'') installed_state
   \<and> read_fault serves_root_only = None
   \<and> storage_match (storage installed_state) (new_request ''/about'') = None
   \<and> fetch_handler serves_root_only (new_request ''/about'') installed_state
       = (Served not_found, installed_state\<lparr>net_log := net_log installed_state @ [new_request ''/about'']\<rparr>)"
proof -
  have a: "read_fault offline = None" and b: "read_fault serves_root_only = None"
    by (simp_all add: example_defs)
  have hit: "storage_match (storage installed_state) (new_request ''/'') = Some (page ''/'')"
    by (simp add: example_defs handler_defs)
  have miss: "storage_match (storage installed_state) (new_request ''/about'') = None"
    by (simp add: example_defs handler_defs)
  have only: "distinct (map fst (storage installed_state))
    \<and> (\<forall>b \<in> set (storage installed_state).
          fst b \<noteq> CACHE_NAME \<longrightarrow> cache_match (snd b) (new_request ''/'') = None)"
    by (simp add: example_defs handler_defs)
  have net: "respondWith (fetch serves_root_only (new_request ''/about'')) installed_state
      = (Served not_found, installed_state\<lparr>net_log := net_log installed_state @ [new_request ''/about'']\<rparr>)"
    by (simp add: respondWith_fetch) (simp add: example_defs)
  note t1 = fetch_handler_looks_up_whole_storage [OF a, of installed_state "new_request ''/''"]
  note t2 = fetch_handler_looks_up_whole_storage [OF b, of installed_state "new_request ''/about''"]
  from t1 hit have c1: "fetch_handler offline (new_request ''/'') installed_state
      = (Served (page ''/''), installed_state)"
    by blast
  from t1 only have c2: "fetch_handler offline (new_request ''/'') installed_state
      = spec_fetch_handler offline (new_request ''/'') installed_state"
    by blast
  from t2 miss have "fetch_handler serves_root_only (new_request ''/about'') installed_state
      = respondWith (fetch serves_root_only (new_request ''/about'')) installed_state"
    by blast
  with net have c3: "fetch_handler serves_root_only (new_request ''/about'') installed_state
      = (Served not_found, installed_state\<lparr>net_log := net_log installed_state @ [new_request ''/about'']\<rparr>)"
    by simp
  from only have d: "distinct (map fst (storage installed_state))" ..
  from a b hit miss d c1 c2 c3 show ?thesis
    by (intro conjI)
qed

text \<open>
  C4: for every intercepted request that has no matching cache entry, the interceptor
  performs exactly one network fetch, for that request, and returns what the fetch
  returns unmodified: a response of the network is served as it is (status, headers and
  body), a failure of the network is the failure of the request.
\<close>

theorem fetch_miss_one_fetch_unmodified:
  assumes "read_fault h = None" and "storage_match (storage s) req = None"
  shows "fetch_handler h req s = respondWith (fetch h req) s
       \<and> net_log (snd (fetch_handler h req s)) = net_log s @ [req]
       \<and> (\<forall>r. network h req = Inr r \<longrightarrow> fst (fetch_handler h req s) = Served r)
       \<and> (\<forall>e. network h req = Inl e \<longrightarrow> fst (fetch_handler h req s) = Unserved e)"
  using assms by (simp add: fetch_handler_miss respondWith_fetch)

theorem fetch_miss_one_fetch_unmodified_witness:
  "read_fault serves_root_only = None
   \<and> storage_match (storage fresh_state) (new_request ''/missing.png'') = None
   \<and> network serves_root_only (new_request ''/missing.png'') = Inr not_found
   \<and> fetch_handler serves_root_only (new_request ''/missing.png'') fresh_state
       = (Served not_found, \<lparr>storage = [], net_log = [new_request ''/missing.png'']\<rparr>)
   \<and> read_fault offline = None
   \<and> network offline (new_request ''/missing.png'') = Inl TypeError
   \<and> fetch_handler offline (new_request ''/missing.png'') fresh_state
       = (Unserved TypeError, \<lparr>storage = [], net_log = [new_request ''/missing.png'']\<rparr>)"
proof -
  have a: "read_fault serves_root_only = None" and b: "read_fault offline = None"
    by (simp_all add: example_defs)
  have m: "storage_match (storage fresh_state) (new_request ''/missing.png'') = None"
    by (simp add: example_defs)
  have n: "network serves_root_only (new_request ''/missing.png'') = Inr not_found"
    "network offline (new_request ''/missing.png'') = Inl TypeError"
    by (simp_all add: example_defs)
  from fetch_miss_one_fetch_unmodified [OF a m] fetch_miss_one_fetch_unmodified [OF b m]
  show ?thesis
    using a b m n by (simp add: respondWith_fetch) (simp add: example_defs)
qed

text \<open>
  C5: if the cache lookup itself fails, the interceptor fails with the error of the
  lookup and the request is left unserved by the script; no network fetch is performed.
\<close>

theorem lookup_failure_unserved_no_fetch:
  assumes "read_fault h = Some e"
  shows "fetch_handler h req s = (Unserved e, s)
       \<and> net_log (snd (fetch_handler h req s)) = net_log s"
  using assms by (simp add: fetch_handler_fault)

theorem lookup_failure_unserved_no_fetch_witness:
  "read_fault broken_storage = Some UnknownError
   \<and> network broken_storage (new_request ''/'') = Inr (page ''/'')
   \<and> fetch_handler broken_storage (new_request ''/'') installed_state
       = (Unserved UnknownError, installed_state)"
proof -
  have a: "read_fault broken_storage = Some UnknownError"
    by (simp add: example_defs)
  from lookup_failure_unserved_no_fetch [OF a, of "new_request ''/''" installed_state]
  show ?thesis
    using a by (simp add: example_defs)
qed


text \<open>
  C7: cache lookups are idempotent. For every request that the cache storage holds a
  response for, each of any number of repeated intercepted requests is served that same
  response, and none of them sends anything to the network or changes the state.
\<close>

theorem cached_lookup_idempotent:
  assumes "read_fault h = None" and "storage_match (storage s) req = Some r"
  shows "repeat_fetch h req n s = (replicate n (Served r), s)
       \<and> net_log (snd (repeat_fetch h req n s)) = net_log s"
  using assms by (induction n) (simp_all add: fetch_handler_hit)

theorem cached_lookup_idempotent_witness:
  "read_fault offline = None
   \<and> storage_match (storage installed_state) (new_request ''/images/*'') = Some (page ''/images/*'')
   \<and> repeat_fetch offline (new_request ''/images/*'') (Suc (Suc (Suc 0))) installed_state
       = ([Served (page ''/images/*''), Served (page ''/images/*''), Served (page ''/images/*'')],
          installed_state)"
proof -
  have a: "read_fault offline = None"
    by (simp add: example_defs)
  have b: "storage_match (storage installed_state) (new_request ''/images/*'') = Some (page ''/images/*'')"
    by (simp add: example_defs handler_defs)
  from cached_lookup_idempotent [OF a b, of "Suc (Suc (Suc 0))"]
  have "repeat_fetch offline (new_request ''/images/*'') (Suc (Suc (Suc 0))) installed_state
       = ([Served (page ''/images/*''), Served (page ''/images/*''), Served (page ''/images/*'')],
          installed_state)"
    by simp
  with a b show ?thesis by (intro conjI)
qed

text \<open>
  C8: handling an intercepted fetch never modifies the cache storage. Whatever the
  request, the host and the state, the buckets after the interceptor has run are the
  buckets before: a response fetched from the network is served and not stored.
\<close>

theorem fetch_never_writes_cache:
  "storage (snd (fetch_handler h req s)) = storage s"
  by (rule fetch_handler_cases [of h req s]) (simp_all add: respondWith_fetch)

text \<open>
  C9: the interceptor goes to the network exactly when the lookup resolves with
  \<^verbatim>\<open>undefined\<close>. Whenever the lookup resolves with a response, of any status, that
  response is served and nothing goes to the network.
\<close>

theorem network_iff_lookup_undefined:
  "(net_log (snd (fetch_handler h req s)) \<noteq> net_log s) = (fst (caches_match h req s) = Inr None)
   \<and> (fst (caches_match h req s) = Inr (Some r) \<longrightarrow> fetch_handler h req s = (Served r, s))"
  by (rule fetch_handler_cases [of h req s]) (simp_all add: respondWith_fetch caches_match_def)

theorem network_iff_lookup_undefined_witness:
  "fst (caches_match serves_everything (new_request ''/api/prices'') error_cached_state)
     = Inr (Some server_error)
   \<and> status server_error = 500
   \<and> fetch_handler serves_everything (new_request ''/api/prices'') error_cached_state
       = (Served server_error, error_cached_state)
   \<and> fst (caches_match serves_everything (new_request ''/api/stock'') error_cached_state) = Inr None
   \<and> net_log (snd (fetch_handler serves_everything (new_request ''/api/stock'') error_cached_state))
       \<noteq> net_log error_cached_state"
proof -
  have a: "fst (caches_match serves_everything (new_request ''/api/prices'') error_cached_state)
     = Inr (Some server_error)"
    by (simp add: example_defs handler_defs)
  have b: "fst (caches_match serves_everything (new_request ''/api/stock'') error_cached_state)
     = Inr None"
    by (simp add: example_defs handler_defs)
  have c: "status server_error = 500"
    by (simp add: server_error_def)
  from network_iff_lookup_undefined
    [of serves_everything "new_request ''/api/prices''" error_cached_state server_error] a
  have d: "fetch_handler serves_everything (new_request ''/api/prices'') error_cached_state
       = (Served server_error, error_cached_state)"
    by blast
  from network_iff_lookup_undefined
    [of serves_everything "new_request ''/api/stock''" error_cached_state server_error] b
  have e: "net_log (snd (fetch_handler serves_everything (new_request ''/api/stock'') error_cached_state))
       \<noteq> net_log error_cached_state"
    by blast
  from a c d b e show ?thesis by (intro conjI)
qed

text \<open>
  C10: the interceptor is deterministic. Two runs on the same cache storage, with the
  same behaviour of the lookup and the same answer of the network to the request, serve
  the same outcome for the same request: the outcome depends on nothing else of the
  host or of the state.
\<close>

theorem fetch_handler_deterministic:
  assumes "storage s1 = storage s2" and "read_fault h1 = read_fault h2"
    and "network h1 req = network h2 req"
  shows "fst (fetch_handler h1 req s1) = fst (fetch_handler h2 req s2)"
  using assms
  by (simp add: fetch_handler_def respondWith_def promise_then_def caches_match_def resolve_def
      fetch_def split: option.splits sum.splits)

theorem fetch_handler_deterministic_witness:
  "storage installed_state = storage (installed_state\<lparr>net_log := []\<rparr>)
   \<and> read_fault serves_everything
       = read_fault (serves_everything\<lparr>acceptable := (\<lambda>r. False), write_fault := Some QuotaExceededError\<rparr>)
   \<and> network serves_everything (new_request ''/about'')
       = network (serves_everything\<lparr>acceptable := (\<lambda>r. False), write_fault := Some QuotaExceededError\<rparr>)
           (new_request ''/about'')
   \<and> fst (fetch_handler serves_everything (new_request ''/about'') installed_state)
       = fst (fetch_handler
               (serves_everything\<lparr>acceptable := (\<lambda>r. False), write_fault := Some QuotaExceededError\<rparr>)
               (new_request ''/about'') (installed_state\<lparr>net_log := []\<rparr>))
   \<and> fst (fetch_handler serves_everything (new_request ''/about'') installed_state)
       = Served (page ''/about'')"
proof -
  let ?h = "serves_everything\<lparr>acceptable := (\<lambda>r. False), write_fault := Some QuotaExceededError\<rparr>"
  have a: "storage installed_state = storage (installed_state\<lparr>net_log := []\<rparr>)"
    by simp
  have b: "read_fault serves_everything = read_fault ?h"
    by simp
  have c: "network serves_everything (new_request ''/about'') = network ?h (new_request ''/about'')"
    by simp
  have d: "fst (fetch_handler serves_everything (new_request ''/about'') installed_state)
       = Served (page ''/about'')"
    by (simp add: example_defs handler_defs)
  from fetch_handler_deterministic [OF a b c] a b c d show ?thesis
    by (intro conjI)
qed

section \<open>The install handler, step by step\<close>

lemma install_handler_open_fault:
  "open_fault h = Some e \<Longrightarrow> install_handler h s = (InstallFailed e, s)"
  by (simp add: install_handler_def waitUntil_def promise_then_def caches_open_def)

lemma install_handler_opened:
  "open_fault h = None \<Longrightarrow>
   install_handler h s = waitUntil (cache_addAll h CACHE_NAME urlsToCache) (opened s)"
  by (simp add: install_handler_def waitUntil_def promise_then_def caches_open_def opened_def)

lemma opened_net_log: "net_log (opened s) = net_log s"
  by (simp add: opened_def)

lemma bucket_entries_opened: "bucket_entries n (storage (opened s)) = bucket_entries n (storage s)"
  by (simp add: opened_def bucket_entries_def map_add_def split: option.splits)

lemma opened_has_bucket: "map_of (storage (opened s)) CACHE_NAME \<noteq> None"
  by (simp add: opened_def map_add_def split: option.splits)

lemma storage_match_append_empty: "storage_match (st @ [(n, [])]) req = storage_match st req"
  by (induction st) (auto simp: cache_match_def split: option.splits)

lemma storage_match_opened: "storage_match (storage (opened s)) req = storage_match (storage s) req"
  by (simp add: opened_def storage_match_append_empty)

lemma bucket_entries_update_bucket:
  "bucket_entries n (update_bucket name f st) =
     (if n = name \<and> map_of st n \<noteq> None then f (bucket_entries n st) else bucket_entries n st)"
  by (induction st) (auto simp: bucket_entries_def update_bucket_def)

lemma waitUntil_fst:
  "fst (waitUntil p s) = (case fst (p s) of Inl e \<Rightarrow> InstallFailed e | Inr u \<Rightarrow> Installed)"
  by (simp add: waitUntil_def split: prod.splits sum.splits)

lemma waitUntil_snd: "snd (waitUntil p s) = snd (p s)"
  by (simp add: waitUntil_def split: prod.splits sum.splits)

lemma urlsToCache_no_fragment: "map strip_fragment urlsToCache = urlsToCache"
  by (simp add: urlsToCache_def strip_fragment_def)

lemma urlsToCache_distinct: "distinct urlsToCache"
  by (simp add: urlsToCache_def)

lemma urlsToCache_stripped_set: "strip_fragment ` set urlsToCache = set urlsToCache"
  using urlsToCache_no_fragment by (metis set_map)

subsection \<open>Storing a batch\<close>

lemma new_request_sel [simp]:
  "http_method (new_request u) = ''GET''" "url (new_request u) = u"
  by (simp_all add: new_request_def)

lemma cache_match_put:
  assumes "http_method (fst kv) = ''GET''"
  shows "cache_match (cache_put c kv) req =
           (if request_matches req (fst kv) then Some (snd kv) else cache_match c req)"
  using assms
  by (induction c) (auto simp: cache_match_def cache_put_def request_matches_def)

lemma cache_match_put_all_other:
  assumes "strip_fragment (url req) \<notin> strip_fragment ` set us"
  shows "cache_match (foldl cache_put c (map (\<lambda>u. (new_request u, g u)) us)) req = cache_match c req"
  using assms
proof (induction us rule: rev_induct)
  case Nil
  show ?case by simp
next
  case (snoc u us)
  then show ?case
    by (auto simp: cache_match_put request_matches_def)
qed


lemma cache_put_keys:
  "map fst (cache_put c kv) = filter (\<lambda>k. \<not> request_matches (fst kv) k) (map fst c) @ [fst kv]"
  by (simp add: cache_put_def filter_map o_def)

lemma foldl_cache_put_keys:
  assumes "distinct (map strip_fragment us)"
  shows "map fst (foldl cache_put c (map (\<lambda>u. (new_request u, g u)) us))
         = filter (\<lambda>k. strip_fragment (url k) \<notin> strip_fragment ` set us) (map fst c)
           @ map new_request us"
  using assms
proof (induction us rule: rev_induct)
  case Nil
  show ?case by simp
next
  case (snoc v us)
  then have d: "distinct (map strip_fragment us)"
    and v: "strip_fragment v \<notin> strip_fragment ` set us"
    by auto
  have keep: "filter (\<lambda>k. \<not> request_matches (new_request v) k) (map new_request us)
      = map new_request us"
  proof -
    from v have "\<forall>x \<in> set us. strip_fragment x \<noteq> strip_fragment v"
      by (metis imageI)
    then show ?thesis
      by (simp add: filter_id_conv request_matches_def)
  qed
  have both: "filter (\<lambda>k. strip_fragment (url k) \<notin> strip_fragment ` set us
                        \<and> \<not> request_matches (new_request v) k) (map fst c)
      = filter (\<lambda>k. strip_fragment (url k) \<notin> strip_fragment ` set (us @ [v])) (map fst c)"
    by (rule filter_cong) (auto simp: request_matches_def)
  show ?case
    using snoc.IH [OF d] by (simp add: cache_put_keys keep both del: set_append)
qed

lemma zip_answers:
  assumes "\<not> list_ex (refused h) (map (network h) (map new_request us))"
  shows "zip (map new_request us) (concat (map answered (map (network h) (map new_request us))))
         = map (\<lambda>u. (new_request u, projr (network h (new_request u)))) us"
  using assms
  by (induction us) (auto simp: refused_def answered_def split: sum.splits)

lemma cache_addAll_net_log:
  "net_log (snd (cache_addAll h name us s)) =
     net_log s @ (if list_ex (refused h) (map (network h) (map new_request us))
                  then filter (dispatched h) (map new_request us)
                  else map new_request us)"
  by (simp add: cache_addAll_def Let_def split: option.splits)

lemma cache_addAll_rejected:
  "fst (cache_addAll h name us s) = Inl e \<Longrightarrow> storage (snd (cache_addAll h name us s)) = storage s"
  by (simp add: cache_addAll_def Let_def split: option.splits if_splits)

lemma cache_addAll_refused:
  "list_ex (refused h) (map (network h) (map new_request us)) \<Longrightarrow>
   fst (cache_addAll h name us s) = Inl TypeError"
  by (simp add: cache_addAll_def Let_def)

lemma cache_addAll_resolved:
  assumes "fst (cache_addAll h name us s) = Inr x"
  shows "\<not> list_ex (refused h) (map (network h) (map new_request us))"
    and "storage (snd (cache_addAll h name us s)) =
           update_bucket name
             (\<lambda>c. foldl cache_put c (map (\<lambda>u. (new_request u, projr (network h (new_request u)))) us))
             (storage s)"
proof -
  show a: "\<not> list_ex (refused h) (map (network h) (map new_request us))"
    using assms by (auto simp: cache_addAll_def Let_def split: if_splits)
  show "storage (snd (cache_addAll h name us s)) =
           update_bucket name
             (\<lambda>c. foldl cache_put c (map (\<lambda>u. (new_request u, projr (network h (new_request u)))) us))
             (storage s)"
    using assms a zip_answers [OF a]
    by (auto simp: cache_addAll_def Let_def split: if_splits option.splits)
qed


lemma install_handler_other_urls:
  assumes "strip_fragment (url req) \<notin> set urlsToCache"
  shows "named_cache_lookup (storage (snd (install_handler h s))) req
         = named_cache_lookup (storage s) req"
proof (cases "open_fault h")
  case (Some e)
  then show ?thesis by (simp add: install_handler_open_fault)
next
  case None
  let ?p = "cache_addAll h CACHE_NAME urlsToCache (opened s)"
  have s': "snd (install_handler h s) = snd ?p"
    by (simp add: install_handler_opened [OF None] waitUntil_snd)
  show ?thesis
  proof (cases "fst ?p")
    case (Inl e)
    from cache_addAll_rejected [OF Inl] show ?thesis
      by (simp add: s' named_cache_lookup_def bucket_entries_opened)
  next
    case (Inr x)
    from cache_addAll_resolved(2) [OF Inr] assms show ?thesis
      by (simp add: s' named_cache_lookup_def bucket_entries_update_bucket opened_has_bucket
          cache_match_put_all_other bucket_entries_opened urlsToCache_stripped_set)
  qed
qed

lemma install_handler_sent:
  "\<exists>ns. net_log (snd (install_handler h s)) = net_log s @ ns
      \<and> distinct ns \<and> set ns \<subseteq> set (map new_request urlsToCache)"
proof (cases "open_fault h")
  case (Some e)
  then show ?thesis by (simp add: install_handler_open_fault)
next
  case None
  have d: "distinct (map new_request urlsToCache)"
    using urlsToCache_distinct by (simp add: distinct_map inj_on_def new_request_def)
  show ?thesis
  proof (cases "list_ex (refused h) (map (network h) (map new_request urlsToCache))")
    case True
    then have "net_log (snd (install_handler h s))
        = net_log s @ filter (dispatched h) (map new_request urlsToCache)"
      by (simp add: install_handler_opened [OF None] waitUntil_snd cache_addAll_net_log
          opened_net_log)
    moreover have "distinct (filter (dispatched h) (map new_request urlsToCache))"
      using d by (rule distinct_filter)
    moreover have "set (filter (dispatched h) (map new_request urlsToCache))
        \<subseteq> set (map new_request urlsToCache)"
      by (rule filter_is_subset)
    ultimately show ?thesis by blast
  next
    case False
    then have "net_log (snd (install_handler h s)) = net_log s @ map new_request urlsToCache"
      by (simp add: install_handler_opened [OF None] waitUntil_snd cache_addAll_net_log
          opened_net_log)
    with d show ?thesis by blast
  qed
qed

lemma install_handler_installed:
  assumes "fst (install_handler h s) = Installed"
  shows "net_log (snd (install_handler h s)) = net_log s @ map new_request urlsToCache"
    and "storage (snd (install_handler h s)) =
           update_bucket CACHE_NAME
             (\<lambda>c. foldl cache_put c
                (map (\<lambda>u. (new_request u, projr (network h (new_request u)))) urlsToCache))
             (storage (opened s))"
    and "\<not> list_ex (refused h) (map (network h) (map new_request urlsToCache))"
proof -
  have op: "open_fault h = None"
  proof (cases "open_fault h")
    case (Some e)
    with assms show ?thesis by (simp add: install_handler_open_fault)
  qed simp
  let ?p = "cache_addAll h CACHE_NAME urlsToCache (opened s)"
  from assms have "fst ?p = Inr ()"
    by (simp add: install_handler_opened [OF op] waitUntil_fst split: sum.splits)
  note res = cache_addAll_resolved [OF this]
  show "\<not> list_ex (refused h) (map (network h) (map new_request urlsToCache))"
    by (rule res(1))
  then show "net_log (snd (install_handler h s)) = net_log s @ map new_request urlsToCache"
    by (simp add: install_handler_opened [OF op] waitUntil_snd cache_addAll_net_log opened_net_log)
  show "storage (snd (install_handler h s)) =
           update_bucket CACHE_NAME
             (\<lambda>c. foldl cache_put c
                (map (\<lambda>u. (new_request u, projr (network h (new_request u)))) urlsToCache))
             (storage (opened s))"
    using res(2) by (simp add: install_handler_opened [OF op] waitUntil_snd)
qed

lemmas install_defs =
  install_handler_def waitUntil_def promise_then_def caches_open_def cache_addAll_def
  update_bucket_def cache_put_def refused_def answered_def urlsToCache_def CACHE_NAME_def
  request_matches_def strip_fragment_def Let_def

section \<open>Properties of the install handler\<close>

text \<open>
  C2: if opening the named bucket fails, or if the fetch of any one identifier of the
  static resource list fails (the network fails, or the host does not accept the
  response), the install is reported as failed. Nothing is cached: every bucket holds
  after the install what it held before, and no request finds in the storage what it
  did not find before, so no identifier of the list, after the failing one or before
  it, is stored. Nothing is retried: the requests that went out are requests for
  identifiers of the list, none of them went out twice, and none went out when the
  bucket did not open. How many requests of an aborted batch went out is the host's.
\<close>

theorem install_all_or_nothing:
  assumes "open_fault h \<noteq> None \<or> (\<exists>u \<in> set urlsToCache. refused h (network h (new_request u)))"
  shows "(\<exists>e. fst (install_handler h s) = InstallFailed e)
       \<and> (\<forall>name. bucket_entries name (storage (snd (install_handler h s)))
                    = bucket_entries name (storage s))
       \<and> (\<forall>req. storage_match (storage (snd (install_handler h s))) req
                    = storage_match (storage s) req)
       \<and> (\<exists>ns. net_log (snd (install_handler h s)) = net_log s @ ns
                \<and> distinct ns \<and> set ns \<subseteq> set (map new_request urlsToCache))
       \<and> (open_fault h \<noteq> None \<longrightarrow> net_log (snd (install_handler h s)) = net_log s)"
proof (cases "open_fault h")
  case (Some e)
  then show ?thesis by (simp add: install_handler_open_fault)
next
  case None
  with assms have "list_ex (refused h) (map (network h) (map new_request urlsToCache))"
    by (auto simp: list_ex_iff)
  then have r: "fst (cache_addAll h CACHE_NAME urlsToCache (opened s)) = Inl TypeError"
    by (rule cache_addAll_refused)
  have st: "storage (snd (install_handler h s)) = storage (opened s)"
    using cache_addAll_rejected [OF r] by (simp add: install_handler_opened [OF None] waitUntil_snd)
  have out: "fst (install_handler h s) = InstallFailed TypeError"
    using r by (simp add: install_handler_opened [OF None] waitUntil_fst)
  show ?thesis
    using None install_handler_sent [of h s]
    by (simp add: st out bucket_entries_opened storage_match_opened)
qed

theorem install_all_or_nothing_witness:
  "''/static/css/*'' \<in> set urlsToCache
   \<and> refused serves_root_only (network serves_root_only (new_request ''/static/css/*''))
   \<and> fst (install_handler serves_root_only fresh_state) = InstallFailed TypeError
   \<and> storage (snd (install_handler serves_root_only fresh_state)) = [(''agrimarket-v1'', [])]
   \<and> bucket_entries CACHE_NAME (storage (snd (install_handler serves_root_only fresh_state))) = []
   \<and> storage_match (storage (snd (install_handler serves_root_only fresh_state))) (new_request ''/'')
       = None
   \<and> distinct (net_log (snd (install_handler serves_root_only fresh_state)))
   \<and> set (net_log (snd (install_handler serves_root_only fresh_state)))
       \<subseteq> set (map new_request urlsToCache)
   \<and> open_fault broken_storage \<noteq> None
   \<and> install_handler broken_storage installed_state = (InstallFailed UnknownError, installed_state)
   \<and> net_log (snd (install_handler broken_storage installed_state)) = net_log installed_state"
proof -
  have m: "''/static/css/*'' \<in> set urlsToCache"
    by (simp add: urlsToCache_def)
  have r: "refused serves_root_only (network serves_root_only (new_request ''/static/css/*''))"
    by (simp add: example_defs refused_def)
  have o: "open_fault broken_storage \<noteq> None"
    by (simp add: example_defs)
  from m r have h1: "open_fault serves_root_only \<noteq> None
      \<or> (\<exists>u \<in> set urlsToCache. refused serves_root_only (network serves_root_only (new_request u)))"
    by blast
  from o have h2: "open_fault broken_storage \<noteq> None
      \<or> (\<exists>u \<in> set urlsToCache. refused broken_storage (network broken_storage (new_request u)))"
    by blast
  note t1 = install_all_or_nothing [OF h1, of fresh_state]
  note t2 = install_all_or_nothing [OF h2, of installed_state]
  from t1 have "bucket_entries CACHE_NAME (storage (snd (install_handler serves_root_only fresh_state)))
      = bucket_entries CACHE_NAME (storage fresh_state)"
    by blast
  then have c1: "bucket_entries CACHE_NAME (storage (snd (install_handler serves_root_only fresh_state))) = []"
    by (simp add: fresh_state_def bucket_entries_def)
  from t1 have "storage_match (storage (snd (install_handler serves_root_only fresh_state))) (new_request ''/'')
      = storage_match (storage fresh_state) (new_request ''/'')"
    by blast
  then have c2: "storage_match (storage (snd (install_handler serves_root_only fresh_state))) (new_request ''/'')
       = None"
    by (simp add: fresh_state_def)
  from t1 obtain ns where
    ns: "net_log (snd (install_handler serves_root_only fresh_state)) = net_log fresh_state @ ns"
      "distinct ns" "set ns \<subseteq> set (map new_request urlsToCache)"
    by blast
  from ns have c4: "distinct (net_log (snd (install_handler serves_root_only fresh_state)))"
    and c5: "set (net_log (snd (install_handler serves_root_only fresh_state)))
       \<subseteq> set (map new_request urlsToCache)"
    by (simp_all add: fresh_state_def)
  from t2 o have c3: "net_log (snd (install_handler broken_storage installed_state)) = net_log installed_state"
    by blast
  have e0: "fst (install_handler serves_root_only fresh_state) = InstallFailed TypeError"
    by (simp add: install_defs example_defs)
  have e1: "storage (snd (install_handler serves_root_only fresh_state)) = [(''agrimarket-v1'', [])]"
    by (simp add: install_defs example_defs)
  have e2: "install_handler broken_storage installed_state = (InstallFailed UnknownError, installed_state)"
    by (simp add: install_handler_open_fault broken_storage_def)
  from m r e0 e1 c1 c2 c4 c5 o e2 c3 show ?thesis
    by (intro conjI)
qed



text \<open>
  C6: the static resource list is exactly the four strings \<^verbatim>\<open>/\<close>, \<^verbatim>\<open>/static/css/*\<close>,
  \<^verbatim>\<open>/static/media/*\<close> and \<^verbatim>\<open>/images/*\<close>, and the script hands them to the batch
  operation as they are, the asterisks included. Whatever the outcome of an install, no
  request goes to the network but requests for these four strings. When the install
  succeeds, the requests that went out are the four requests for these strings, and the
  keys of the named bucket are the keys it had, less those that one of the four strings
  replaces, followed by the four requests for these strings: the literals are the cache
  keys. And an install changes what the named bucket answers for no URL that, its
  fragment apart, is not one of the four strings, so no file under the three directories
  is cached on account of an asterisk.
\<close>

theorem urlsToCache_passed_literally:
  "urlsToCache = [''/'', ''/static/css/*'', ''/static/media/*'', ''/images/*'']
   \<and> set (net_log (snd (install_handler h s)))
        \<subseteq> set (net_log s) \<union> {\<lparr>http_method = ''GET'', url = ''/''\<rparr>,
                                \<lparr>http_method = ''GET'', url = ''/static/css/*''\<rparr>,
                                \<lparr>http_method = ''GET'', url = ''/static/media/*''\<rparr>,
                                \<lparr>http_method = ''GET'', url = ''/images/*''\<rparr>}
   \<and> (fst (install_handler h s) = Installed \<longrightarrow>
        net_log (snd (install_handler h s))
          = net_log s @ [\<lparr>http_method = ''GET'', url = ''/''\<rparr>,
                         \<lparr>http_method = ''GET'', url = ''/static/css/*''\<rparr>,
                         \<lparr>http_method = ''GET'', url = ''/static/media/*''\<rparr>,
                         \<lparr>http_method = ''GET'', url = ''/images/*''\<rparr>]
      \<and> map fst (bucket_entries CACHE_NAME (storage (snd (install_handler h s))))
          = filter (\<lambda>k. strip_fragment (url k) \<notin> set urlsToCache)
              (map fst (bucket_entries CACHE_NAME (storage s)))
            @ [\<lparr>http_method = ''GET'', url = ''/''\<rparr>,
               \<lparr>http_method = ''GET'', url = ''/static/css/*''\<rparr>,
               \<lparr>http_method = ''GET'', url = ''/static/media/*''\<rparr>,
               \<lparr>http_method = ''GET'', url = ''/images/*''\<rparr>])
   \<and> (strip_fragment (url req) \<notin> set urlsToCache \<longrightarrow>
        named_cache_lookup (storage (snd (install_handler h s))) req
          = named_cache_lookup (storage s) req)"
proof -
  have four: "map new_request urlsToCache
      = [\<lparr>http_method = ''GET'', url = ''/''\<rparr>,
         \<lparr>http_method = ''GET'', url = ''/static/css/*''\<rparr>,
         \<lparr>http_method = ''GET'', url = ''/static/media/*''\<rparr>,
         \<lparr>http_method = ''GET'', url = ''/images/*''\<rparr>]"
    by (simp add: urlsToCache_def new_request_def)
  have c1: "urlsToCache = [''/'', ''/static/css/*'', ''/static/media/*'', ''/images/*'']"
    by (simp add: urlsToCache_def)
  from install_handler_sent [of h s] obtain ns where
    ns: "net_log (snd (install_handler h s)) = net_log s @ ns"
      "set ns \<subseteq> set (map new_request urlsToCache)"
    by blast
  then have "set (net_log (snd (install_handler h s)))
      \<subseteq> set (net_log s) \<union> set (map new_request urlsToCache)"
    by auto
  then have c2: "set (net_log (snd (install_handler h s)))
        \<subseteq> set (net_log s) \<union> {\<lparr>http_method = ''GET'', url = ''/''\<rparr>,
                                \<lparr>http_method = ''GET'', url = ''/static/css/*''\<rparr>,
                                \<lparr>http_method = ''GET'', url = ''/static/media/*''\<rparr>,
                                \<lparr>http_method = ''GET'', url = ''/images/*''\<rparr>}"
    unfolding four by simp
  have c3: "net_log (snd (install_handler h s))
          = net_log s @ [\<lparr>http_method = ''GET'', url = ''/''\<rparr>,
                         \<lparr>http_method = ''GET'', url = ''/static/css/*''\<rparr>,
                         \<lparr>http_method = ''GET'', url = ''/static/media/*''\<rparr>,
                         \<lparr>http_method = ''GET'', url = ''/images/*''\<rparr>]
      \<and> map fst (bucket_entries CACHE_NAME (storage (snd (install_handler h s))))
          = filter (\<lambda>k. strip_fragment (url k) \<notin> set urlsToCache)
              (map fst (bucket_entries CACHE_NAME (storage s)))
            @ [\<lparr>http_method = ''GET'', url = ''/''\<rparr>,
               \<lparr>http_method = ''GET'', url = ''/static/css/*''\<rparr>,
               \<lparr>http_method = ''GET'', url = ''/static/media/*''\<rparr>,
               \<lparr>http_method = ''GET'', url = ''/images/*''\<rparr>]"
    if f: "fst (install_handler h s) = Installed"
  proof -
    note res = install_handler_installed [OF f]
    have d: "distinct (map strip_fragment urlsToCache)"
      by (simp add: urlsToCache_no_fragment urlsToCache_distinct)
    have "map fst (bucket_entries CACHE_NAME (storage (snd (install_handler h s))))
        = filter (\<lambda>k. strip_fragment (url k) \<notin> set urlsToCache)
            (map fst (bucket_entries CACHE_NAME (storage s)))
          @ map new_request urlsToCache"
      by (simp add: res(2) bucket_entries_update_bucket opened_has_bucket
          foldl_cache_put_keys [OF d] urlsToCache_stripped_set bucket_entries_opened)
    with res(1) show ?thesis
      unfolding four by simp
  qed
  have c4: "named_cache_lookup (storage (snd (install_handler h s))) req
          = named_cache_lookup (storage s) req"
    if "strip_fragment (url req) \<notin> set urlsToCache"
    using that by (rule install_handler_other_urls)
  from c1 c2 c3 c4 show ?thesis
    by blast
qed

theorem urlsToCache_passed_literally_witness:
  "fst (install_handler serves_everything fresh_state) = Installed
   \<and> net_log (snd (install_handler serves_everything fresh_state))
       = [\<lparr>http_method = ''GET'', url = ''/''\<rparr>,
          \<lparr>http_method = ''GET'', url = ''/static/css/*''\<rparr>,
          \<lparr>http_method = ''GET'', url = ''/static/media/*''\<rparr>,
          \<lparr>http_method = ''GET'', url = ''/images/*''\<rparr>]
   \<and> map fst (bucket_entries CACHE_NAME (storage (snd (install_handler serves_everything fresh_state))))
       = [\<lparr>http_method = ''GET'', url = ''/''\<rparr>,
          \<lparr>http_method = ''GET'', url = ''/static/css/*''\<rparr>,
          \<lparr>http_method = ''GET'', url = ''/static/media/*''\<rparr>,
          \<lparr>http_method = ''GET'', url = ''/images/*''\<rparr>]
   \<and> strip_fragment (url (new_request ''/static/css/main.css'')) \<notin> set urlsToCache
   \<and> named_cache_lookup (storage (snd (install_handler serves_everything fresh_state)))
        (new_request ''/static/css/main.css'') = None"
proof -
  have a: "fst (install_handler serves_everything fresh_state) = Installed"
    by (simp add: install_defs example_defs)
  have b: "strip_fragment (url (new_request ''/static/css/main.css'')) \<notin> set urlsToCache"
    by (simp add: urlsToCache_def strip_fragment_def)
  have old: "map fst (bucket_entries CACHE_NAME (storage fresh_state)) = []"
    "net_log fresh_state = []"
    by (simp_all add: fresh_state_def bucket_entries_def)
  note t = urlsToCache_passed_literally
    [of serves_everything fresh_state "new_request ''/static/css/main.css''"]
  from t a have "net_log (snd (install_handler serves_everything fresh_state))
       = net_log fresh_state @ [\<lparr>http_method = ''GET'', url = ''/''\<rparr>,
          \<lparr>http_method = ''GET'', url = ''/static/css/*''\<rparr>,
          \<lparr>http_method = ''GET'', url = ''/static/media/*''\<rparr>,
          \<lparr>http_method = ''GET'', url = ''/images/*''\<rparr>]"
    by blast
  then have c: "net_log (snd (install_handler serves_everything fresh_state))
       = [\<lparr>http_method = ''GET'', url = ''/''\<rparr>,
          \<lparr>http_method = ''GET'', url = ''/static/css/*''\<rparr>,
          \<lparr>http_method = ''GET'', url = ''/static/media/*''\<rparr>,
          \<lparr>http_method = ''GET'', url = ''/images/*''\<rparr>]"
    by (simp add: old)
  from t a have "map fst (bucket_entries CACHE_NAME (storage (snd (install_handler serves_everything fresh_state))))
       = filter (\<lambda>k. strip_fragment (url k) \<notin> set urlsToCache)
              (map fst (bucket_entries CACHE_NAME (storage fresh_state)))
         @ [\<lparr>http_method = ''GET'', url = ''/''\<rparr>,
          \<lparr>http_method = ''GET'', url = ''/static/css/*''\<rparr>,
          \<lparr>http_method = ''GET'', url = ''/static/media/*''\<rparr>,
          \<lparr>http_method = ''GET'', url = ''/images/*''\<rparr>]"
    by blast
  then have k: "map fst (bucket_entries CACHE_NAME (storage (snd (install_handler serves_everything fresh_state))))
       = [\<lparr>http_method = ''GET'', url = ''/''\<rparr>,
          \<lparr>http_method = ''GET'', url = ''/static/css/*''\<rparr>,
          \<lparr>http_method = ''GET'', url = ''/static/media/*''\<rparr>,
          \<lparr>http_method = ''GET'', url = ''/images/*''\<rparr>]"
    by (simp add: old)
  from t b have "named_cache_lookup (storage (snd (install_handler serves_everything fresh_state)))
        (new_request ''/static/css/main.css'')
      = named_cache_lookup (storage fresh_state) (new_request ''/static/css/main.css'')"
    by blast
  then have d: "named_cache_lookup (storage (snd (install_handler serves_everything fresh_state)))
        (new_request ''/static/css/main.css'') = None"
    by (simp add: fresh_state_def named_cache_lookup_def bucket_entries_def cache_match_def)
  from a c k b d show ?thesis
    by (intro conjI)
qed

end
